theory Spec2Isabelle
  imports Main
begin

section \<open>Tweet preprocessing: the transforms and the two batch drivers\<close>

text \<open>
  A shallow embedding of \<^verbatim>\<open>preprocessing/PreProcessing.py\<close>.

  A Python \<^verbatim>\<open>str\<close> is modelled as a \<^typ>\<open>string\<close> whose characters are the code
  points 0 to 255 (ASCII and Latin-1); the tables of \<^verbatim>\<open>str.isspace\<close>,
  \<^verbatim>\<open>str.lower\<close> and of the regular expression classes \<^verbatim>\<open>\s\<close> and
  \<^verbatim>\<open>\w\<close> are those of Python 3 on that range. The value threaded through a
  pipeline is dynamically typed: a \<^verbatim>\<open>str\<close> or a \<^verbatim>\<open>list\<close> of \<^verbatim>\<open>str\<close>.
\<close>

subsection \<open>Characters\<close>

definition code :: "char \<Rightarrow> nat" where
  "code c = of_char c"

text \<open>\<^verbatim>\<open>str.isspace\<close>, also the class \<^verbatim>\<open>\s\<close> of a \<^verbatim>\<open>str\<close> pattern.\<close>

definition isspace :: "char \<Rightarrow> bool" where
  "isspace c = (let n = code c in
     (9 \<le> n \<and> n \<le> 13) \<or> (28 \<le> n \<and> n \<le> 32) \<or> n = 133 \<or> n = 160)"

text \<open>\<^verbatim>\<open>str.lower\<close> on one character.\<close>

definition lower_char :: "char \<Rightarrow> char" where
  "lower_char c = (let n = code c in
     if (65 \<le> n \<and> n \<le> 90) \<or> (192 \<le> n \<and> n \<le> 222 \<and> n \<noteq> 215)
     then char_of (n + 32) else c)"

text \<open>The class \<^verbatim>\<open>\w\<close> of a \<^verbatim>\<open>str\<close> pattern: alphanumeric or underscore.\<close>

definition isword :: "char \<Rightarrow> bool" where
  "isword c = (let n = code c in
     (48 \<le> n \<and> n \<le> 57) \<or> (65 \<le> n \<and> n \<le> 90) \<or> n = 95 \<or> (97 \<le> n \<and> n \<le> 122)
     \<or> n = 170 \<or> n = 178 \<or> n = 179 \<or> n = 181 \<or> n = 185 \<or> n = 186
     \<or> (188 \<le> n \<and> n \<le> 190) \<or> (192 \<le> n \<and> n \<le> 214) \<or> (216 \<le> n \<and> n \<le> 246)
     \<or> 248 \<le> n)"

text \<open>The classes \<^verbatim>\<open>[a-z]\<close>, \<^verbatim>\<open>[a-zA-Z]\<close> and \<^verbatim>\<open>[0-9]\<close>.\<close>

definition is_az :: "char \<Rightarrow> bool" where
  "is_az c = (97 \<le> code c \<and> code c \<le> 122)"

definition is_azAZ :: "char \<Rightarrow> bool" where
  "is_azAZ c = (is_az c \<or> (65 \<le> code c \<and> code c \<le> 90))"

definition is_09 :: "char \<Rightarrow> bool" where
  "is_09 c = (48 \<le> code c \<and> code c \<le> 57)"

text \<open>\<^verbatim>\<open>string.punctuation\<close>: the code points 33-47, 58-64, 91-96 and 123-126.\<close>

definition punctuation :: "char \<Rightarrow> bool" where
  "punctuation c = (let n = code c in
     (33 \<le> n \<and> n \<le> 47) \<or> (58 \<le> n \<and> n \<le> 64) \<or> (91 \<le> n \<and> n \<le> 96)
     \<or> (123 \<le> n \<and> n \<le> 126))"

subsection \<open>String methods\<close>

definition lower :: "string \<Rightarrow> string" where
  "lower s = map lower_char s"

text \<open>\<^verbatim>\<open>s.strip()\<close>: whitespace removed at both ends.\<close>

definition strip :: "string \<Rightarrow> string" where
  "strip s = rev (dropWhile isspace (rev (dropWhile isspace s)))"

text \<open>
  \<^verbatim>\<open>s.split()\<close>: the maximal runs of non-whitespace characters, in order. The first
  argument is the run read so far.
\<close>

fun split_from :: "string \<Rightarrow> string \<Rightarrow> string list" where
  "split_from cur [] = (if cur = [] then [] else [cur])"
| "split_from cur (c # cs) =
     (if isspace c then (if cur = [] then split_from [] cs else cur # split_from [] cs)
      else split_from (cur @ [c]) cs)"

definition split :: "string \<Rightarrow> string list" where
  "split s = split_from [] s"

text \<open>\<^verbatim>\<open>sep.join(words)\<close>.\<close>

fun join :: "string \<Rightarrow> string list \<Rightarrow> string" where
  "join sep [] = []"
| "join sep [w] = w"
| "join sep (w # ws) = w @ sep @ join sep ws"

text \<open>\<^verbatim>\<open>t in s\<close> on strings: \<open>t\<close> occurs in \<open>s\<close> as a contiguous run.\<close>

fun contains :: "string \<Rightarrow> string \<Rightarrow> bool" where
  "contains [] t = (t = [])"
| "contains (c # cs) t = (take (length t) (c # cs) = t \<or> contains cs t)"

text \<open>\<^verbatim>\<open>word.translate(translator)\<close>, the translator sending each of its keys to a space.\<close>

definition translate :: "(char \<Rightarrow> bool) \<Rightarrow> string \<Rightarrow> string" where
  "translate keys w = map (\<lambda>c. if keys c then CHR '' '' else c) w"

subsection \<open>Regular expressions of the transforms\<close>

text \<open>
  \<^verbatim>\<open>re.sub\<close> scans the word from the left; where the pattern matches, the match is
  replaced and the scan goes on behind it, elsewhere the character is kept. A
  replacement token is a template of \<^verbatim>\<open>re.sub\<close>; a token without a backslash, as
  both default tokens are, stands for itself, and these are the tokens modelled.
\<close>

text \<open>\<^verbatim>\<open>@[\S]+\<close>: an at sign and the non-empty run of non-whitespace behind it.\<close>

function sub_mention :: "string \<Rightarrow> string \<Rightarrow> string" where
  "sub_mention tok [] = []"
| "sub_mention tok (c # cs) =
     (if c = CHR ''@'' \<and> takeWhile (\<lambda>d. \<not> isspace d) cs \<noteq> []
      then tok @ sub_mention tok (dropWhile (\<lambda>d. \<not> isspace d) cs)
      else c # sub_mention tok cs)"
  by pat_completeness auto
termination
  by (relation "measure (\<lambda>(tok, w). length w)")
     (auto simp: length_dropWhile_le less_Suc_eq_le)

text \<open>\<^verbatim>\<open>https?:\/\/\S*\<close>: the scheme and the run of non-whitespace behind it.\<close>

definition url_prefix :: "string \<Rightarrow> nat option" where
  "url_prefix w =
     (if take 8 w = ''https://'' then Some 8
      else if take 7 w = ''http://'' then Some 7 else None)"

function sub_url :: "string \<Rightarrow> string \<Rightarrow> string" where
  "sub_url tok [] = []"
| "sub_url tok (c # cs) =
     (case url_prefix (c # cs) of
        Some n \<Rightarrow> tok @ sub_url tok (dropWhile (\<lambda>d. \<not> isspace d) (drop n (c # cs)))
      | None \<Rightarrow> c # sub_url tok cs)"
  by pat_completeness auto
termination
proof (relation "measure (\<lambda>(tok, w). length w)")
  fix tok :: string and c :: char and cs :: string and n :: nat
  assume "url_prefix (c # cs) = Some n"
  then have "0 < n"
    by (auto simp: url_prefix_def split: if_splits)
  then have "length (drop n (c # cs)) < length (c # cs)"
    by simp
  moreover have "length (dropWhile (\<lambda>d. \<not> isspace d) (drop n (c # cs)))
      \<le> length (drop n (c # cs))"
    by (rule length_dropWhile_le)
  ultimately show "((tok, dropWhile (\<lambda>d. \<not> isspace d) (drop n (c # cs))), (tok, c # cs))
      \<in> measure (\<lambda>(tok, w). length w)"
    by simp
qed simp_all

text \<open>
  \<^verbatim>\<open>\brt\b|\bRT\b\<close> under \<^verbatim>\<open>regex.match\<close>, which tries the start of the word only:
  the word begins with \<^verbatim>\<open>rt\<close> or \<^verbatim>\<open>RT\<close> and no word character follows.
\<close>

definition match_rt :: "string \<Rightarrow> bool" where
  "match_rt w =
     ((take 2 w = ''rt'' \<or> take 2 w = ''RT'') \<and>
      (case drop 2 w of [] \<Rightarrow> True | d # _ \<Rightarrow> \<not> isword d))"

text \<open>
  \<^verbatim>\<open>([a-z])\1\1+\<close> replaced by \<^verbatim>\<open>\1\<close>: a run of three or more of one lower-case
  letter becomes one.
\<close>

function sub_repetitions :: "string \<Rightarrow> string" where
  "sub_repetitions [] = []"
| "sub_repetitions (c # cs) =
     (if is_az c \<and> 2 \<le> length (takeWhile (\<lambda>d. d = c) cs)
      then c # sub_repetitions (dropWhile (\<lambda>d. d = c) cs)
      else c # sub_repetitions cs)"
  by pat_completeness auto
termination
  by (relation "measure length") (auto simp: length_dropWhile_le less_Suc_eq_le)

text \<open>
  A pattern \<^verbatim>\<open>[...]+\<close> replaced by the empty string: every run of characters of the
  class is cut out. \<^verbatim>\<open>[^a-zA-Z]*\<close> also matches the empty run, which the empty
  replacement leaves as it is.
\<close>

function sub_class :: "(char \<Rightarrow> bool) \<Rightarrow> string \<Rightarrow> string" where
  "sub_class cls [] = []"
| "sub_class cls (c # cs) =
     (if cls c then sub_class cls (dropWhile cls cs) else c # sub_class cls cs)"
  by pat_completeness auto
termination
  by (relation "measure (\<lambda>(cls, w). length w)")
     (auto simp: length_dropWhile_le less_Suc_eq_le)

subsection \<open>Values, errors and the transforms\<close>

datatype pyvalue = Str string | List "string list"

datatype error = AttributeError

text \<open>Iterating over a value: a list gives its items, a \<^verbatim>\<open>str\<close> its characters.\<close>

fun iter :: "pyvalue \<Rightarrow> string list" where
  "iter (List ws) = ws"
| "iter (Str s) = map (\<lambda>c. [c]) s"

text \<open>
  A transform object after construction, with the attributes its constructor has
  set. \<^verbatim>\<open>RemoveTerm\<close> and \<^verbatim>\<open>RemoveExactTerms\<close> hold \<^verbatim>\<open>ignore_case\<close> and the
  attribute \<^verbatim>\<open>term\<close> (\<^verbatim>\<open>terms\<close>), which is \<open>None\<close> when the constructor has not
  assigned it.
\<close>

datatype PreProcessor =
    WordLengthFilter int
  | WordToLowercase
  | SplitWordByWhitespace
  | RemovePunctuationFromWords "char \<Rightarrow> bool"
  | ReplaceUsernameMention string
  | ReplaceURL string
  | RemoveRT string
  | RemoveLetterRepetitions
  | ConcatWordArray
  | RemoveTerm bool "string option"
  | RemoveExactTerms bool "string list option"
  | RemoveEmptyStrings
  | RemoveDigits
  | Lemmatize
  | RemoveNonAlphabet

text \<open>The constructors with arguments (\<^verbatim>\<open>__init__\<close>).\<close>

definition RemovePunctuationFromWords_init :: "bool \<Rightarrow> PreProcessor" where
  "RemovePunctuationFromWords_init remove_all =
     (if remove_all then RemovePunctuationFromWords punctuation
      else RemovePunctuationFromWords (\<lambda>key. punctuation key \<and> key \<noteq> CHR ''#'' \<and>
             key \<noteq> CHR ''@'' \<and> key \<noteq> CHR ''<'' \<and> key \<noteq> CHR ''>''))"

definition RemoveTerm_init :: "string \<Rightarrow> bool \<Rightarrow> PreProcessor" where
  "RemoveTerm_init term ignore_case =
     (if ignore_case then RemoveTerm ignore_case (Some (lower term))
      else RemoveTerm ignore_case None)"

definition RemoveExactTerms_init :: "string list \<Rightarrow> bool \<Rightarrow> PreProcessor" where
  "RemoveExactTerms_init terms ignore_case =
     (if ignore_case then RemoveExactTerms ignore_case (Some (map lower terms))
      else RemoveExactTerms ignore_case None)"

text \<open>The loop of \<^verbatim>\<open>RemoveTerm.preprocess_text\<close>; reading an unset attribute raises.\<close>

fun RemoveTerm_loop :: "bool \<Rightarrow> string option \<Rightarrow> string list \<Rightarrow> string list \<Rightarrow> error + string list"
where
  "RemoveTerm_loop ignore_case term [] new_array = Inr new_array"
| "RemoveTerm_loop ignore_case term (word # text_words) new_array =
     (let to_compare = (if ignore_case then lower word else word) in
      case term of
        None \<Rightarrow> Inl AttributeError
      | Some t \<Rightarrow>
          if \<not> contains to_compare t
          then RemoveTerm_loop ignore_case term text_words (new_array @ [word])
          else RemoveTerm_loop ignore_case term text_words new_array)"

text \<open>The loop of \<^verbatim>\<open>RemoveExactTerms.preprocess_text\<close>.\<close>

fun RemoveExactTerms_loop ::
  "bool \<Rightarrow> string list option \<Rightarrow> string list \<Rightarrow> string list \<Rightarrow> error + string list"
where
  "RemoveExactTerms_loop ignore_case terms [] new_array = Inr new_array"
| "RemoveExactTerms_loop ignore_case terms (word0 # text_words) new_array =
     (let word = (if ignore_case then lower word0 else word0) in
      case terms of
        None \<Rightarrow> Inl AttributeError
      | Some ts \<Rightarrow>
          if word \<notin> set ts
          then RemoveExactTerms_loop ignore_case terms text_words (new_array @ [word])
          else RemoveExactTerms_loop ignore_case terms text_words new_array)"

text \<open>
  \<^verbatim>\<open>preprocess_text\<close> of each class. The first argument is the lemmatizer of NLTK,
  an external service taken as a function on words.
\<close>

fun preprocess_text :: "(string \<Rightarrow> string) \<Rightarrow> PreProcessor \<Rightarrow> pyvalue \<Rightarrow> error + pyvalue" where
  "preprocess_text lem (WordLengthFilter min_word_length) v =
     Inr (List (map strip
       (filter (\<lambda>word. int (length (strip word)) \<ge> min_word_length) (iter v))))"
| "preprocess_text lem WordToLowercase v = Inr (List (map lower (iter v)))"
| "preprocess_text lem SplitWordByWhitespace v =
     (case v of Str tweet \<Rightarrow> Inr (List (split tweet)) | List _ \<Rightarrow> Inl AttributeError)"
| "preprocess_text lem (RemovePunctuationFromWords translator) v =
     Inr (List (concat (map (\<lambda>word. split (translate translator word)) (iter v))))"
| "preprocess_text lem (ReplaceUsernameMention replacement_token) v =
     Inr (List (map (sub_mention replacement_token) (iter v)))"
| "preprocess_text lem (ReplaceURL replacement_token) v =
     Inr (List (map (sub_url replacement_token) (iter v)))"
| "preprocess_text lem (RemoveRT replacement_token) v =
     Inr (List (filter (\<lambda>word. \<not> match_rt word) (iter v)))"
| "preprocess_text lem RemoveLetterRepetitions v = Inr (List (map sub_repetitions (iter v)))"
| "preprocess_text lem ConcatWordArray v = Inr (Str (join '' '' (iter v)))"
| "preprocess_text lem (RemoveTerm ignore_case term) v =
     map_sum id List (RemoveTerm_loop ignore_case term (iter v) [])"
| "preprocess_text lem (RemoveExactTerms ignore_case terms) v =
     map_sum id List (RemoveExactTerms_loop ignore_case terms (iter v) [])"
| "preprocess_text lem RemoveEmptyStrings v =
     Inr (List (filter (\<lambda>word. strip word \<noteq> []) (iter v)))"
| "preprocess_text lem RemoveDigits v = Inr (List (map (sub_class is_09) (iter v)))"
| "preprocess_text lem Lemmatize v = Inr (List (map lem (iter v)))"
| "preprocess_text lem RemoveNonAlphabet v =
     Inr (List (map (sub_class (\<lambda>c. \<not> is_azAZ c)) (iter v)))"

subsection \<open>The driver on strings\<close>

text \<open>The inner loop of both drivers: the transforms applied from left to right.\<close>

fun run_pipeline :: "(string \<Rightarrow> string) \<Rightarrow> PreProcessor list \<Rightarrow> pyvalue \<Rightarrow> error + pyvalue" where
  "run_pipeline lem [] tweet = Inr tweet"
| "run_pipeline lem (preprocessor # preprocessors) tweet =
     (case preprocess_text lem preprocessor tweet of
        Inl e \<Rightarrow> Inl e
      | Inr tweet' \<Rightarrow> run_pipeline lem preprocessors tweet')"

text \<open>\<^verbatim>\<open>tweet.strip()\<close> on the final value: a list has no such method.\<close>

fun strip_value :: "pyvalue \<Rightarrow> error + string" where
  "strip_value (Str s) = Inr (strip s)"
| "strip_value (List ws) = Inl AttributeError"

fun preprocess_strings_loop ::
  "(string \<Rightarrow> string) \<Rightarrow> string list \<Rightarrow> PreProcessor list \<Rightarrow> string list \<Rightarrow> error + string list"
where
  "preprocess_strings_loop lem [] preprocessors preprocessed_tweets = Inr preprocessed_tweets"
| "preprocess_strings_loop lem (tweet # strings) preprocessors preprocessed_tweets =
     (case run_pipeline lem preprocessors (Str tweet) of
        Inl e \<Rightarrow> Inl e
      | Inr v \<Rightarrow>
          (case strip_value v of
             Inl e \<Rightarrow> Inl e
           | Inr s \<Rightarrow>
               if s \<noteq> []
               then preprocess_strings_loop lem strings preprocessors (preprocessed_tweets @ [s])
               else preprocess_strings_loop lem strings preprocessors preprocessed_tweets))"

definition preprocess_strings ::
  "(string \<Rightarrow> string) \<Rightarrow> string list \<Rightarrow> PreProcessor list \<Rightarrow> error + string list" where
  "preprocess_strings lem strings preprocessors =
     preprocess_strings_loop lem strings preprocessors []"

subsection \<open>The driver on records\<close>

text \<open>
  A record of the batch is an object with a mutable \<^verbatim>\<open>text\<close> attribute and other
  attributes the driver does not touch. Objects live in a store, a list indexed by
  address; a batch is the list of the addresses of its records, all of them
  allocated, and a new object is allocated at the end of the store.
\<close>

record 'm tweet =
  "text" :: pyvalue
  meta :: 'm

type_synonym 'm store = "'m tweet list"

text \<open>
  \<^verbatim>\<open>copy.deepcopy(tweets)\<close>: every record is copied to a new object; the memo maps
  a record already met to its copy, so a record listed twice is copied once.
\<close>

fun deepcopy :: "'m store \<Rightarrow> (nat \<times> nat) list \<Rightarrow> nat list \<Rightarrow> 'm store \<times> nat list" where
  "deepcopy h memo [] = (h, [])"
| "deepcopy h memo (a # as) =
     (case map_of memo a of
        Some b \<Rightarrow> (case deepcopy h memo as of (h', bs) \<Rightarrow> (h', b # bs))
      | None \<Rightarrow>
          (case deepcopy (h @ [h ! a]) ((a, length h) # memo) as of
             (h', bs) \<Rightarrow> (h', length h # bs)))"

text \<open>The inner loop: \<^verbatim>\<open>tweet.text\<close> is assigned after every transform.\<close>

fun tweet_loop ::
  "(string \<Rightarrow> string) \<Rightarrow> PreProcessor list \<Rightarrow> nat \<Rightarrow> 'm store \<Rightarrow> error option \<times> 'm store"
where
  "tweet_loop lem [] tweet h = (None, h)"
| "tweet_loop lem (preprocessor # preprocessors) tweet h =
     (case preprocess_text lem preprocessor (text (h ! tweet)) of
        Inl e \<Rightarrow> (Some e, h)
      | Inr v \<Rightarrow> tweet_loop lem preprocessors tweet (h[tweet := (h ! tweet)\<lparr>text := v\<rparr>]))"

fun tweets_loop ::
  "(string \<Rightarrow> string) \<Rightarrow> nat list \<Rightarrow> PreProcessor list \<Rightarrow> 'm store \<Rightarrow> error option \<times> 'm store"
where
  "tweets_loop lem [] preprocessors h = (None, h)"
| "tweets_loop lem (tweet # tweets_copy) preprocessors h =
     (case tweet_loop lem preprocessors tweet h of
        (Some e, h') \<Rightarrow> (Some e, h')
      | (None, h') \<Rightarrow> tweets_loop lem tweets_copy preprocessors h')"

text \<open>The result is the returned batch, or the exception raised, and the store left.\<close>

definition preprocess_tweets ::
  "(string \<Rightarrow> string) \<Rightarrow> 'm store \<Rightarrow> nat list \<Rightarrow> PreProcessor list
     \<Rightarrow> (error + nat list) \<times> 'm store" where
  "preprocess_tweets lem h tweets preprocessors =
     (case deepcopy h [] tweets of
        (h1, tweets_copy) \<Rightarrow>
          (case tweets_loop lem tweets_copy preprocessors h1 of
             (Some e, h2) \<Rightarrow> (Inl e, h2)
           | (None, h2) \<Rightarrow> (Inr tweets_copy, h2)))"

subsection \<open>Predicates and inputs of the statements\<close>

text \<open>A word holds a mention: an at sign directly followed by a non-whitespace character.\<close>

fun has_mention :: "string \<Rightarrow> bool" where
  "has_mention (c # d # cs) = ((c = CHR ''@'' \<and> \<not> isspace d) \<or> has_mention (d # cs))"
| "has_mention _ = False"

text \<open>The tweet and the pipeline of the end-to-end scenario.\<close>

definition scenario_tweet :: string where
  "scenario_tweet = ''RT @user: Check this outttt!! http://t.co/abc123''"

definition scenario_pipeline :: "PreProcessor list" where
  "scenario_pipeline =
     [SplitWordByWhitespace, ReplaceUsernameMention ''<USERNAME>'', ReplaceURL ''<URL>'',
      RemoveRT [], RemovePunctuationFromWords_init True, WordToLowercase,
      RemoveLetterRepetitions, RemoveEmptyStrings, ConcatWordArray]"

section \<open>Properties\<close>

subsection \<open>RemoveTerm and RemoveExactTerms\<close>

lemma RemoveExactTerms_loop_Some:
  "RemoveExactTerms_loop ignore_case (Some ts) ws acc =
     Inr (acc @ filter (\<lambda>w. w \<notin> set ts) (map (\<lambda>w. if ignore_case then lower w else w) ws))"
  by (cases ignore_case; induction ws arbitrary: acc) simp_all

lemma RemoveTerm_loop_Some:
  "RemoveTerm_loop ignore_case (Some t) ws acc =
     Inr (acc @ filter (\<lambda>w. \<not> contains (if ignore_case then lower w else w) t) ws)"
  by (cases ignore_case; induction ws arbitrary: acc) simp_all

text \<open>
  On a list of tokens every transform returns, save \<^verbatim>\<open>SplitWordByWhitespace\<close>,
  which wants a \<^verbatim>\<open>str\<close>, and the two whose attribute is unset.
\<close>

lemma preprocess_text_returns:
  assumes "p \<noteq> SplitWordByWhitespace"
    and "\<forall>ignore_case. p \<noteq> RemoveTerm ignore_case None"
    and "\<forall>ignore_case. p \<noteq> RemoveExactTerms ignore_case None"
  shows "\<exists>v. preprocess_text lem p (List ws) = Inr v"
proof (cases p)
  case (RemoveTerm ignore_case attr)
  with assms(2) obtain t where "attr = Some t"
    by (cases attr) auto
  with RemoveTerm show ?thesis
    by (simp add: RemoveTerm_loop_Some)
next
  case (RemoveExactTerms ignore_case attr)
  with assms(3) obtain ts where "attr = Some ts"
    by (cases attr) auto
  with RemoveExactTerms show ?thesis
    by (simp add: RemoveExactTerms_loop_Some)
qed (use assms(1) in simp_all)

text \<open>
  C10. With \<^verbatim>\<open>ignore_case=True\<close>, \<^verbatim>\<open>RemoveExactTerms\<close> returns the lower-cased
  tokens that are not among the lower-cased terms: every token that survives is in
  its lower-case form. \<^verbatim>\<open>["Hello"]\<close> with the terms \<^verbatim>\<open>["bye"]\<close> gives
  \<^verbatim>\<open>["hello"]\<close>.
\<close>

theorem RemoveExactTerms_ignore_case_lowers:
  "preprocess_text lem (RemoveExactTerms_init terms True) (List ws) =
     Inr (List (filter (\<lambda>w. w \<notin> set (map lower terms)) (map lower ws)))
   \<and> preprocess_text lem (RemoveExactTerms_init [''bye''] True) (List [''Hello'']) =
       Inr (List [''hello''])"
proof
  show "preprocess_text lem (RemoveExactTerms_init terms True) (List ws) =
     Inr (List (filter (\<lambda>w. w \<notin> set (map lower terms)) (map lower ws)))"
    by (simp add: RemoveExactTerms_init_def RemoveExactTerms_loop_Some)
  show "preprocess_text lem (RemoveExactTerms_init [''bye''] True) (List [''Hello'']) =
       Inr (List [''hello''])"
    by code_simp
qed

text \<open>
  C5. The claim is that no transform raises on a list of tokens. Constructed with
  \<^verbatim>\<open>ignore_case=False\<close>, \<^verbatim>\<open>RemoveTerm\<close> never assigns \<^verbatim>\<open>self.term\<close>, and its
  \<^verbatim>\<open>preprocess_text\<close> raises AttributeError on the first token of any list.
\<close>

theorem RemoveTerm_case_sensitive_raises:
  "preprocess_text lem (RemoveTerm_init term False) (List (w # ws)) = Inl AttributeError"
  by (simp add: RemoveTerm_init_def)

text \<open>
  C6. The claim is that \<^verbatim>\<open>RemoveExactTerms\<close> with \<^verbatim>\<open>ignore_case=False\<close> drops the
  tokens equal to a term and keeps the others. The constructor never assigns
  \<^verbatim>\<open>self.terms\<close> in that case, and \<^verbatim>\<open>preprocess_text\<close> raises AttributeError on the
  first token of any list.
\<close>

theorem RemoveExactTerms_case_sensitive_raises:
  "preprocess_text lem (RemoveExactTerms_init terms False) (List (w # ws)) = Inl AttributeError"
  by (simp add: RemoveExactTerms_init_def)

subsection \<open>The end-to-end scenario\<close>

lemma scenario_split:
  "preprocess_text lem SplitWordByWhitespace (Str scenario_tweet) =
     Inr (List [''RT'', ''@user:'', ''Check'', ''this'', ''outttt!!'', ''http://t.co/abc123''])"
  by (simp add: scenario_tweet_def split_def isspace_def code_def)

lemma scenario_mention:
  "preprocess_text lem (ReplaceUsernameMention ''<USERNAME>'')
     (List [''RT'', ''@user:'', ''Check'', ''this'', ''outttt!!'', ''http://t.co/abc123'']) =
   Inr (List [''RT'', ''<USERNAME>'', ''Check'', ''this'', ''outttt!!'', ''http://t.co/abc123''])"
  by (simp add: isspace_def code_def)

lemma scenario_url:
  "preprocess_text lem (ReplaceURL ''<URL>'')
     (List [''RT'', ''<USERNAME>'', ''Check'', ''this'', ''outttt!!'', ''http://t.co/abc123'']) =
   Inr (List [''RT'', ''<USERNAME>'', ''Check'', ''this'', ''outttt!!'', ''<URL>''])"
  by (simp add: isspace_def code_def url_prefix_def)

lemma scenario_rt:
  "preprocess_text lem (RemoveRT [])
     (List [''RT'', ''<USERNAME>'', ''Check'', ''this'', ''outttt!!'', ''<URL>'']) =
   Inr (List [''<USERNAME>'', ''Check'', ''this'', ''outttt!!'', ''<URL>''])"
  by (simp add: match_rt_def isword_def code_def)

lemma scenario_punctuation:
  "preprocess_text lem (RemovePunctuationFromWords_init True)
     (List [''<USERNAME>'', ''Check'', ''this'', ''outttt!!'', ''<URL>'']) =
   Inr (List [''USERNAME'', ''Check'', ''this'', ''outttt'', ''URL''])"
  by (simp add: RemovePunctuationFromWords_init_def translate_def punctuation_def split_def
      isspace_def code_def)

lemma scenario_lowercase:
  "preprocess_text lem WordToLowercase
     (List [''USERNAME'', ''Check'', ''this'', ''outttt'', ''URL'']) =
   Inr (List [''username'', ''check'', ''this'', ''outttt'', ''url''])"
  by code_simp

lemma scenario_repetitions:
  "preprocess_text lem RemoveLetterRepetitions
     (List [''username'', ''check'', ''this'', ''outttt'', ''url'']) =
   Inr (List [''username'', ''check'', ''this'', ''out'', ''url''])"
  by (simp add: is_az_def code_def)

lemma scenario_empty:
  "preprocess_text lem RemoveEmptyStrings
     (List [''username'', ''check'', ''this'', ''out'', ''url'']) =
   Inr (List [''username'', ''check'', ''this'', ''out'', ''url''])"
  by (simp add: strip_def isspace_def code_def)

lemma scenario_concat:
  "preprocess_text lem ConcatWordArray
     (List [''username'', ''check'', ''this'', ''out'', ''url'']) =
   Inr (Str ''username check this out url'')"
  by simp

lemma scenario_strip:
  "strip ''username check this out url'' = ''username check this out url''"
  by (simp add: strip_def isspace_def code_def)

lemma scenario_run:
  "run_pipeline lem scenario_pipeline (Str scenario_tweet) =
     Inr (Str ''username check this out url'')"
  unfolding scenario_pipeline_def
  by (simp only: run_pipeline.simps sum.case scenario_split scenario_mention scenario_url
      scenario_rt scenario_punctuation scenario_lowercase scenario_repetitions
      scenario_empty scenario_concat)

lemma scenario_result:
  "preprocess_strings lem [scenario_tweet] scenario_pipeline =
     Inr [''username check this out url'']"
  by (simp add: preprocess_strings_def scenario_run scenario_strip)

text \<open>
  C4, as the code has it. The scenario's tweet through the scenario's pipeline gives
  \<^verbatim>\<open>"username check this out url"\<close>: with \<^verbatim>\<open>remove_all=True\<close> the angle brackets
  of the two placeholders are punctuation and are stripped with the rest.
\<close>

theorem scenario_output:
  "preprocess_strings lem [''RT @user: Check this outttt!! http://t.co/abc123'']
     [SplitWordByWhitespace, ReplaceUsernameMention ''<USERNAME>'', ReplaceURL ''<URL>'',
      RemoveRT [], RemovePunctuationFromWords_init True, WordToLowercase,
      RemoveLetterRepetitions, RemoveEmptyStrings, ConcatWordArray] =
   Inr [''username check this out url'']"
  using scenario_result [of lem] by (simp only: scenario_tweet_def scenario_pipeline_def)

text \<open>C4, as the claim states it: the output is not the string with the brackets.\<close>

theorem scenario_output_counterexample:
  "preprocess_strings (\<lambda>w. w) [''RT @user: Check this outttt!! http://t.co/abc123'']
     [SplitWordByWhitespace, ReplaceUsernameMention ''<USERNAME>'', ReplaceURL ''<URL>'',
      RemoveRT [], RemovePunctuationFromWords_init True, WordToLowercase,
      RemoveLetterRepetitions, RemoveEmptyStrings, ConcatWordArray] \<noteq>
   Inr [''<username> check this out <url>'']"
proof -
  have "preprocess_strings (\<lambda>w. w) [scenario_tweet] scenario_pipeline =
      Inr [''username check this out url'']"
    by (rule scenario_result)
  then show ?thesis
    by (simp add: scenario_tweet_def scenario_pipeline_def)
qed

subsection \<open>Idempotent transforms\<close>

lemma lower_char_idem: "lower_char (lower_char c) = lower_char c"
  unfolding lower_char_def code_def Let_def
  by auto

lemma lower_idem: "lower (lower w) = lower w"
  by (simp add: lower_def lower_char_idem)

lemma filter_dropWhile_neg: "filter (\<lambda>c. \<not> P c) (dropWhile P xs) = filter (\<lambda>c. \<not> P c) xs"
  by (induction xs) simp_all

lemma sub_class_filter: "sub_class cls w = filter (\<lambda>c. \<not> cls c) w"
  by (induction cls w rule: sub_class.induct) (simp_all add: filter_dropWhile_neg)

lemma sub_class_idem: "sub_class cls (sub_class cls w) = sub_class cls w"
  by (simp add: sub_class_filter)

text \<open>
  C7. \<^verbatim>\<open>WordToLowercase\<close>, \<^verbatim>\<open>RemoveDigits\<close>, \<^verbatim>\<open>RemoveNonAlphabet\<close> and
  \<^verbatim>\<open>RemoveEmptyStrings\<close> are idempotent: on every list of tokens each returns a
  value, and returns the same value when applied to it again.
\<close>

theorem idempotent_transforms:
  "(\<exists>out. preprocess_text lem WordToLowercase (List ws) = Inr out \<and>
          preprocess_text lem WordToLowercase out = Inr out) \<and>
   (\<exists>out. preprocess_text lem RemoveDigits (List ws) = Inr out \<and>
          preprocess_text lem RemoveDigits out = Inr out) \<and>
   (\<exists>out. preprocess_text lem RemoveNonAlphabet (List ws) = Inr out \<and>
          preprocess_text lem RemoveNonAlphabet out = Inr out) \<and>
   (\<exists>out. preprocess_text lem RemoveEmptyStrings (List ws) = Inr out \<and>
          preprocess_text lem RemoveEmptyStrings out = Inr out)"
  by (simp add: lower_idem sub_class_idem)

subsection \<open>Mentions\<close>

lemma sub_mention_first:
  assumes "CHR ''@'' \<notin> set pre" and "r \<noteq> []" and "\<forall>c\<in>set r. \<not> isspace c"
  shows "sub_mention tok (pre @ CHR ''@'' # r) = pre @ tok"
  using assms(1)
proof (induction pre)
  case Nil
  have tw: "takeWhile (\<lambda>d. \<not> isspace d) r = r"
    using assms(3) by simp
  have dw: "dropWhile (\<lambda>d. \<not> isspace d) r = []"
    using assms(3) by simp
  show ?case
    by (simp add: tw dw assms(2))
next
  case (Cons p pre)
  then show ?case by auto
qed

lemma sub_mention_none: "\<not> has_mention w \<Longrightarrow> sub_mention tok w = w"
  by (induction w rule: has_mention.induct) auto

text \<open>
  C9, as the code has it. \<^verbatim>\<open>ReplaceUsernameMention\<close> with its default token rewrites
  every token on its own, so the tokens keep their number and order. In a token
  where the first at sign is followed by a non-empty run of non-whitespace
  characters up to the end of the token, the text before that at sign is kept and
  the rest is replaced by the token: a token that is an at sign and such a run
  becomes the replacement token alone. A token in which no at sign is directly
  followed by a non-whitespace character is unchanged.
  \<^verbatim>\<open>["@alice", "hello"]\<close> gives \<^verbatim>\<open>["<USERNAME>", "hello"]\<close>.
\<close>

theorem mention_mask:
  "(\<exists>out. preprocess_text lem (ReplaceUsernameMention ''<USERNAME>'') (List ws) = Inr (List out)
     \<and> length out = length ws
     \<and> (\<forall>i<length ws.
          (\<forall>pre r. ws ! i = pre @ CHR ''@'' # r \<and> CHR ''@'' \<notin> set pre \<and> r \<noteq> [] \<and>
              (\<forall>c\<in>set r. \<not> isspace c) \<longrightarrow> out ! i = pre @ ''<USERNAME>'')
        \<and> (\<not> has_mention (ws ! i) \<longrightarrow> out ! i = ws ! i)))
   \<and> preprocess_text lem (ReplaceUsernameMention ''<USERNAME>'') (List [''@alice'', ''hello'']) =
       Inr (List [''<USERNAME>'', ''hello''])"
proof
  let ?out = "map (sub_mention ''<USERNAME>'') ws"
  have "preprocess_text lem (ReplaceUsernameMention ''<USERNAME>'') (List ws) = Inr (List ?out)"
    by simp
  moreover have "length ?out = length ws" by simp
  moreover have "\<forall>i<length ws.
          (\<forall>pre r. ws ! i = pre @ CHR ''@'' # r \<and> CHR ''@'' \<notin> set pre \<and> r \<noteq> [] \<and>
              (\<forall>c\<in>set r. \<not> isspace c) \<longrightarrow> ?out ! i = pre @ ''<USERNAME>'')
        \<and> (\<not> has_mention (ws ! i) \<longrightarrow> ?out ! i = ws ! i)"
    by (simp add: sub_mention_first sub_mention_none)
  ultimately show "\<exists>out. preprocess_text lem (ReplaceUsernameMention ''<USERNAME>'') (List ws) = Inr (List out)
     \<and> length out = length ws
     \<and> (\<forall>i<length ws.
          (\<forall>pre r. ws ! i = pre @ CHR ''@'' # r \<and> CHR ''@'' \<notin> set pre \<and> r \<noteq> [] \<and>
              (\<forall>c\<in>set r. \<not> isspace c) \<longrightarrow> out ! i = pre @ ''<USERNAME>'')
        \<and> (\<not> has_mention (ws ! i) \<longrightarrow> out ! i = ws ! i))" by blast
  show "preprocess_text lem (ReplaceUsernameMention ''<USERNAME>'') (List [''@alice'', ''hello'']) =
       Inr (List [''<USERNAME>'', ''hello''])"
    by (simp add: isspace_def code_def)
qed

text \<open>The three cases of the statement on one input.\<close>

theorem mention_mask_witness:
  "preprocess_text (\<lambda>w. w) (ReplaceUsernameMention ''<USERNAME>'')
     (List [''@alice'', ''hi@bob'', ''@'']) =
   Inr (List [''<USERNAME>'', ''hi<USERNAME>'', ''@''])"
proof -
  let ?ws = "[''@alice'', ''hi@bob'', ''@'']"
  obtain out where o: "preprocess_text (\<lambda>w. w) (ReplaceUsernameMention ''<USERNAME>'') (List ?ws) = Inr (List out)"
    and len: "length out = length ?ws"
    and pt: "\<forall>i<length ?ws.
          (\<forall>pre r. ?ws ! i = pre @ CHR ''@'' # r \<and> CHR ''@'' \<notin> set pre \<and> r \<noteq> [] \<and>
              (\<forall>c\<in>set r. \<not> isspace c) \<longrightarrow> out ! i = pre @ ''<USERNAME>'')
        \<and> (\<not> has_mention (?ws ! i) \<longrightarrow> out ! i = ?ws ! i)"
    using mention_mask [of "\<lambda>w. w" ?ws] by blast
  have i0: "0 < length ?ws" and i1: "1 < length ?ws" and i2: "2 < length ?ws"
    by simp_all
  have h0: "?ws ! 0 = [] @ CHR ''@'' # ''alice'' \<and> CHR ''@'' \<notin> set [] \<and> ''alice'' \<noteq> [] \<and>
      (\<forall>c\<in>set ''alice''. \<not> isspace c)"
    by (simp add: isspace_def code_def)
  have h1: "?ws ! 1 = ''hi'' @ CHR ''@'' # ''bob'' \<and> CHR ''@'' \<notin> set ''hi'' \<and> ''bob'' \<noteq> [] \<and>
      (\<forall>c\<in>set ''bob''. \<not> isspace c)"
    by (simp add: isspace_def code_def)
  have h2: "\<not> has_mention (?ws ! 2)"
    by simp
  have "out ! 0 = [] @ ''<USERNAME>''"
    using pt i0 h0 by blast
  moreover have "out ! 1 = ''hi'' @ ''<USERNAME>''"
    using pt i1 h1 by blast
  moreover have "out ! 2 = ?ws ! 2"
    using pt i2 h2 by blast
  ultimately have "out = [''<USERNAME>'', ''hi<USERNAME>'', ''@'']"
    using len by (simp add: list_eq_iff_nth_eq less_Suc_eq numeral_2_eq_2)
  with o show ?thesis by simp
qed

text \<open>
  C9, as the claim states it: the token \<^verbatim>\<open>hi@bob\<close> is neither replaced by the
  replacement token nor left unchanged.
\<close>

theorem mention_mask_counterexample:
  "preprocess_text (\<lambda>w. w) (ReplaceUsernameMention ''<USERNAME>'') (List [''hi@bob'']) =
     Inr (List [''hi<USERNAME>''])
   \<and> ''hi<USERNAME>'' \<noteq> ''<USERNAME>'' \<and> ''hi<USERNAME>'' \<noteq> ''hi@bob''"
  by (simp add: isspace_def code_def)

subsection \<open>Splitting and joining\<close>

lemma split_from_word:
  "\<forall>c\<in>set w. \<not> isspace c \<Longrightarrow> split_from cur (w @ rest) = split_from (cur @ w) rest"
  by (induction w arbitrary: cur) simp_all

lemma split_join:
  "\<forall>w\<in>set ws. w \<noteq> [] \<and> (\<forall>c\<in>set w. \<not> isspace c) \<Longrightarrow> split (join '' '' ws) = ws"
proof (induction "'' ''" ws rule: join.induct)
  case 1
  then show ?case by (simp add: split_def)
next
  case (2 w)
  then have "split_from [] (w @ []) = split_from ([] @ w) []"
    by (intro split_from_word) simp
  with 2 show ?case by (simp add: split_def)
next
  case (3 w v ws)
  have sp: "isspace CHR '' ''" by (simp add: isspace_def code_def)
  from 3 have "split_from [] (w @ ('' '' @ join '' '' (v # ws)))
      = split_from ([] @ w) ('' '' @ join '' '' (v # ws))"
    by (intro split_from_word) simp
  with 3 sp show ?case by (simp add: split_def)
qed

text \<open>
  C8. A string that consists of words separated by single spaces, every word
  non-empty and free of whitespace, comes back unchanged from
  \<^verbatim>\<open>SplitWordByWhitespace\<close> followed by \<^verbatim>\<open>ConcatWordArray\<close>.
\<close>

theorem split_concat_round_trip:
  "\<forall>w\<in>set ws. w \<noteq> [] \<and> (\<forall>c\<in>set w. \<not> isspace c) \<Longrightarrow>
     run_pipeline lem [SplitWordByWhitespace, ConcatWordArray] (Str (join '' '' ws)) =
       Inr (Str (join '' '' ws))"
  by (simp add: split_join)

theorem split_concat_round_trip_witness:
  "run_pipeline (\<lambda>w. w) [SplitWordByWhitespace, ConcatWordArray] (Str ''hello big world'') =
     Inr (Str ''hello big world'')"
  using split_concat_round_trip [of "[''hello'', ''big'', ''world'']" "\<lambda>w. w"]
  by (simp add: isspace_def code_def)


subsection \<open>The batch of strings\<close>





subsection \<open>The batch of records: the store\<close>

lemma deepcopy_extends: "\<exists>ext. fst (deepcopy h memo as) = h @ ext"
proof (induction as arbitrary: h memo)
  case Nil
  then show ?case by simp
next
  case (Cons a as)
  show ?case
  proof (cases "map_of memo a")
    case None
    obtain ext where "fst (deepcopy (h @ [h ! a]) ((a, length h) # memo) as) = (h @ [h ! a]) @ ext"
      using Cons.IH by blast
    with None show ?thesis by (simp add: split_beta)
  next
    case (Some b)
    with Cons.IH [of h memo] show ?thesis by (simp add: split_beta)
  qed
qed


lemma deepcopy_fresh:
  "\<forall>(a, b)\<in>set memo. n \<le> b \<and> b < length h \<Longrightarrow> n \<le> length h \<Longrightarrow>
     \<forall>b\<in>set (snd (deepcopy h memo as)). n \<le> b \<and> b < length (fst (deepcopy h memo as))"
proof (induction as arbitrary: h memo)
  case Nil
  then show ?case by simp
next
  case (Cons a as)
  show ?case
  proof (cases "map_of memo a")
    case None
    let ?h = "h @ [h ! a]" and ?memo = "(a, length h) # memo"
    have "\<forall>(a, b)\<in>set ?memo. n \<le> b \<and> b < length ?h"
      using Cons.prems by auto
    moreover have "n \<le> length ?h"
      using Cons.prems by simp
    ultimately have ih: "\<forall>b\<in>set (snd (deepcopy ?h ?memo as)). n \<le> b \<and> b < length (fst (deepcopy ?h ?memo as))"
      by (rule Cons.IH)
    obtain ext where "fst (deepcopy ?h ?memo as) = ?h @ ext"
      using deepcopy_extends by blast
    then have "length h < length (fst (deepcopy ?h ?memo as))"
      by simp
    with None ih Cons.prems(2) show ?thesis
      by (simp add: split_beta)
  next
    case (Some b)
    then have "(a, b) \<in> set memo"
      by (rule map_of_SomeD)
    with Cons.prems have b: "n \<le> b \<and> b < length h"
      by auto
    obtain ext where "fst (deepcopy h memo as) = h @ ext"
      using deepcopy_extends by blast
    then have "length h \<le> length (fst (deepcopy h memo as))"
      by simp
    with Some b Cons.IH [OF Cons.prems] show ?thesis
      by (simp add: split_beta)
  qed
qed

lemma tweet_loop_frame:
  "length (snd (tweet_loop lem ps a h)) = length h \<and>
   (\<forall>b. b \<noteq> a \<longrightarrow> snd (tweet_loop lem ps a h) ! b = h ! b) \<and>
   (\<forall>b. meta (snd (tweet_loop lem ps a h) ! b) = meta (h ! b))"
proof (induction ps arbitrary: h)
  case Nil
  then show ?case by simp
next
  case (Cons p ps)
  show ?case
  proof (cases "preprocess_text lem p (text (h ! a))")
    case (Inl e)
    then show ?thesis by simp
  next
    case (Inr v)
    have "\<forall>b. meta (h[a := (h ! a)\<lparr>text := v\<rparr>] ! b) = meta (h ! b)"
      by (cases "a < length h") (simp_all add: nth_list_update list_update_beyond)
    with Inr Cons.IH [of "h[a := (h ! a)\<lparr>text := v\<rparr>]"] show ?thesis
      by simp
  qed
qed


lemma tweets_loop_frame:
  "length (snd (tweets_loop lem bs ps h)) = length h \<and>
   (\<forall>b. b \<notin> set bs \<longrightarrow> snd (tweets_loop lem bs ps h) ! b = h ! b) \<and>
   (\<forall>b. meta (snd (tweets_loop lem bs ps h) ! b) = meta (h ! b))"
proof (induction bs arbitrary: h)
  case Nil
  then show ?case by simp
next
  case (Cons a bs)
  obtain r h1 where t: "tweet_loop lem ps a h = (r, h1)"
    by (cases "tweet_loop lem ps a h")
  with tweet_loop_frame [of lem ps a h]
  have h1: "length h1 = length h" "\<forall>b. b \<noteq> a \<longrightarrow> h1 ! b = h ! b"
    "\<forall>b. meta (h1 ! b) = meta (h ! b)"
    by simp_all
  show ?case
  proof (cases r)
    case None
    with t h1 Cons.IH [of h1] show ?thesis by simp
  next
    case (Some e)
    with t h1 show ?thesis by simp
  qed
qed

text \<open>
  C2. Whatever \<^verbatim>\<open>preprocess_tweets\<close> does, return or raise, every object that was
  in the store before the call is unchanged after it, so every record of the input
  batch keeps its text. The records of the returned batch are objects allocated by
  the call.
\<close>

theorem preprocess_tweets_frame:
  assumes "preprocess_tweets lem h tweets ps = (r, h')"
  shows "length h \<le> length h' \<and> (\<forall>a<length h. h' ! a = h ! a) \<and>
         (\<forall>out. r = Inr out \<longrightarrow> (\<forall>b\<in>set out. length h \<le> b \<and> b < length h'))"
proof -
  obtain h1 copy where d: "deepcopy h [] tweets = (h1, copy)"
    by (cases "deepcopy h [] tweets")
  obtain e h2 where l: "tweets_loop lem copy ps h1 = (e, h2)"
    by (cases "tweets_loop lem copy ps h1")
  from assms d l have h': "h' = h2" and r: "r = (case e of None \<Rightarrow> Inr copy | Some x \<Rightarrow> Inl x)"
    by (auto simp: preprocess_tweets_def split: option.splits)
  obtain ext where ext: "h1 = h @ ext"
    using deepcopy_extends [of h "[]" tweets] d by auto
  have fresh: "\<forall>b\<in>set copy. length h \<le> b \<and> b < length h1"
    using deepcopy_fresh [of "[]" "length h" h tweets] d by simp
  from tweets_loop_frame [of lem copy ps h1] l
  have len: "length h2 = length h1" and same: "\<forall>b. b \<notin> set copy \<longrightarrow> h2 ! b = h1 ! b"
    by simp_all
  have "\<forall>a<length h. h2 ! a = h ! a"
  proof (intro allI impI)
    fix a assume a: "a < length h"
    with fresh have "a \<notin> set copy" by auto
    with same have "h2 ! a = h1 ! a" by simp
    with a ext show "h2 ! a = h ! a" by (simp add: nth_append)
  qed
  moreover have "length h \<le> length h2"
    using len ext by simp
  moreover have "\<forall>out. r = Inr out \<longrightarrow> (\<forall>b\<in>set out. length h \<le> b \<and> b < length h2)"
    using r fresh len by (auto split: option.splits)
  ultimately show ?thesis
    using h' by simp
qed

theorem preprocess_tweets_frame_witness:
  "preprocess_tweets (\<lambda>w. w) [\<lparr>text = Str ''Hello  World'', meta = ''m''\<rparr>] [0]
       [SplitWordByWhitespace, WordToLowercase] =
     (Inr [1], [\<lparr>text = Str ''Hello  World'', meta = ''m''\<rparr>,
                \<lparr>text = List [''hello'', ''world''], meta = ''m''\<rparr>])
   \<and> [\<lparr>text = Str ''Hello  World'', meta = ''m''\<rparr>,
       \<lparr>text = List [''hello'', ''world''], meta = ''m''\<rparr>] ! 0 =
      [\<lparr>text = Str ''Hello  World'', meta = ''m''\<rparr>] ! 0
   \<and> length [\<lparr>text = Str ''Hello  World'', meta = ''m''\<rparr>] \<le> 1"
proof -
  have run: "preprocess_tweets (\<lambda>w. w) [\<lparr>text = Str ''Hello  World'', meta = ''m''\<rparr>] [0]
       [SplitWordByWhitespace, WordToLowercase] =
     (Inr [1], [\<lparr>text = Str ''Hello  World'', meta = ''m''\<rparr>,
                \<lparr>text = List [''hello'', ''world''], meta = ''m''\<rparr>])"
    by code_simp
  from preprocess_tweets_frame [OF run] run show ?thesis
    by simp
qed

subsection \<open>The batch of records: the returned batch\<close>










end
